theory Spec2Isabelle
  imports Main
begin

section \<open>Data model\<close>

text \<open>
  Python values of type \<open>Any\<close>, as far as the filter converter tells them apart: the only
  test the converter makes on a value is \<open>isinstance(value, list)\<close>. \<open>PyNone\<close> is
  Python's \<open>None\<close>, which is also the default of the optional value fields.
\<close>

datatype PyVal =
    PyNone
  | PyBool bool
  | PyInt int
  | PyStr string
  | PyList "PyVal list"
  | PyTuple "PyVal list"
  | PyDict "(PyVal \<times> PyVal) list"

text \<open>
  Modelled from the spec: the enumerations \<open>FilterOperator\<close>, \<open>FilterValueType\<close> and
  \<open>FilterType\<close> of \<open>cortex.core.types.semantics.filter\<close> are imported by the converter
  but are not among the sources. The members are the ones the spec lists.
\<close>

datatype FilterOperator =
  EQUALS | NOT_EQUALS | GREATER_THAN | LESS_THAN | IN | NOT_IN | BETWEEN

datatype FilterValueType = STRING | NUMBER

datatype FilterType = WHERE | HAVING

text \<open>
  Modelled from the spec: \<open>operator.value\<close>, the wire representation of an operator. The
  spec gives \<open>between\<close> for \<open>BETWEEN\<close> (the auto-derived name \<open>filter_price_between\<close>);
  the other members are taken to be the lower-case member names in the same way.
\<close>

fun operator_value :: "FilterOperator \<Rightarrow> string" where
  "operator_value EQUALS = ''equals''"
| "operator_value NOT_EQUALS = ''not_equals''"
| "operator_value GREATER_THAN = ''greater_than''"
| "operator_value LESS_THAN = ''less_than''"
| "operator_value IN = ''in''"
| "operator_value NOT_IN = ''not_in''"
| "operator_value BETWEEN = ''between''"

text \<open>
  Modelled from the spec: the class \<open>SemanticFilter\<close> of \<open>cortex.core.semantics.filters\<close>
  is not among the sources. It is the Filter Value Object of the spec, a plain data holder
  with the fields the converter passes to its constructor. The fields \<open>val\<close> and
  \<open>vals\<close> are the source's \<open>value\<close> and \<open>values\<close>; an absent optional value is
  \<open>PyNone\<close>, an absent table is \<open>None\<close>.
\<close>

record SemanticFilter =
  name :: string
  query :: string
  operator :: FilterOperator
  val :: PyVal
  vals :: PyVal
  min_value :: PyVal
  max_value :: PyVal
  table :: "string option"
  value_type :: FilterValueType
  filter_type :: FilterType
  is_active :: bool

section \<open>The filter constructor\<close>

text \<open>
  \<open>runtime_filter_to_semantic\<close>, with every keyword argument explicit. An omitted
  \<open>name\<close> is \<open>None\<close>; the defaults of the other arguments are given by
  \<open>runtime_filter_to_semantic_defaults\<close> below.
\<close>

definition runtime_filter_to_semantic ::
  "string \<Rightarrow> FilterOperator \<Rightarrow> PyVal \<Rightarrow> PyVal \<Rightarrow> PyVal \<Rightarrow> PyVal \<Rightarrow>
   string option \<Rightarrow> FilterValueType \<Rightarrow> FilterType \<Rightarrow> bool \<Rightarrow> string option \<Rightarrow> SemanticFilter"
where
  "runtime_filter_to_semantic dimension op v vs mn mx tbl vt ft act nm =
     (let nm' = (case nm of
                   None \<Rightarrow> ''filter_'' @ dimension @ ''_'' @ operator_value op
                 | Some n \<Rightarrow> n)
      in \<lparr> name = nm', query = dimension, operator = op, val = v, vals = vs,
           min_value = mn, max_value = mx, table = tbl, value_type = vt,
           filter_type = ft, is_active = act \<rparr>)"

text \<open>The call \<open>runtime_filter_to_semantic(dimension=d, operator=op, value=v, values=vs)\<close>
  with every other argument at its default.\<close>

definition runtime_filter_to_semantic_defaults ::
  "string \<Rightarrow> FilterOperator \<Rightarrow> PyVal \<Rightarrow> PyVal \<Rightarrow> SemanticFilter"
where
  "runtime_filter_to_semantic_defaults dimension op v vs =
     runtime_filter_to_semantic dimension op v vs PyNone PyNone None STRING WHERE True None"

text \<open>The test \<open>isinstance(value, list)\<close>.\<close>

fun isinstance_list :: "PyVal \<Rightarrow> bool" where
  "isinstance_list (PyList xs) = True"
| "isinstance_list v = False"

text \<open>
  \<open>dict_to_semantic_filters\<close>. The dictionary is the list of its items in insertion
  order, which is the order \<open>filter_dict.items()\<close> yields them in. The loop body builds
  one filter from an item, and the loop appends it to \<open>filters\<close>.
\<close>

definition dict_entry_filter :: "string \<times> PyVal \<Rightarrow> SemanticFilter" where
  "dict_entry_filter item =
     (case item of (dimension, v) \<Rightarrow>
        if isinstance_list v
        then runtime_filter_to_semantic_defaults dimension IN PyNone v
        else runtime_filter_to_semantic_defaults dimension EQUALS v PyNone)"

fun dict_to_semantic_filters_loop ::
  "(string \<times> PyVal) list \<Rightarrow> SemanticFilter list \<Rightarrow> SemanticFilter list"
where
  "dict_to_semantic_filters_loop [] filters = filters"
| "dict_to_semantic_filters_loop (item # items) filters =
     dict_to_semantic_filters_loop items (filters @ [dict_entry_filter item])"

definition dict_to_semantic_filters :: "(string \<times> PyVal) list \<Rightarrow> SemanticFilter list" where
  "dict_to_semantic_filters filter_dict = dict_to_semantic_filters_loop filter_dict []"

section \<open>The filter merger\<close>

text \<open>
  A Python \<open>dict\<close> as the list of its items in insertion order. Assigning to a key that is
  present replaces its value and leaves the key where it is; assigning to a new key appends
  the item.
\<close>

fun dict_setitem :: "('k \<times> 'v) list \<Rightarrow> 'k \<Rightarrow> 'v \<Rightarrow> ('k \<times> 'v) list" where
  "dict_setitem [] k v = [(k, v)]"
| "dict_setitem ((k', v') # d) k v =
     (if k' = k then (k', v) # d else (k', v') # dict_setitem d k v)"

definition dict_values :: "('k \<times> 'v) list \<Rightarrow> 'v list" where
  "dict_values d = map snd d"

text \<open>
  Both the comprehension \<open>{f.name: f for f in existing_filters}\<close> and the loop over
  \<open>runtime_filters\<close> assign \<open>merged[f.name] = f\<close> for each filter in turn.
\<close>

fun merge_assign ::
  "(string \<times> SemanticFilter) list \<Rightarrow> SemanticFilter list \<Rightarrow> (string \<times> SemanticFilter) list"
where
  "merge_assign merged [] = merged"
| "merge_assign merged (f # fs) = merge_assign (dict_setitem merged (name f) f) fs"

text \<open>
  \<open>merge_filters\<close>. \<open>existing_filters\<close> is optional; \<open>not existing_filters\<close> holds for
  \<open>None\<close> and for the empty list.
\<close>

definition merge_filters ::
  "SemanticFilter list option \<Rightarrow> SemanticFilter list \<Rightarrow> bool \<Rightarrow> SemanticFilter list"
where
  "merge_filters existing_filters runtime_filters replace =
     (if replace then runtime_filters
      else case existing_filters of
             None \<Rightarrow> runtime_filters
           | Some [] \<Rightarrow> runtime_filters
           | Some (e # es) \<Rightarrow>
               if runtime_filters = [] then e # es
               else dict_values (merge_assign (merge_assign [] (e # es)) runtime_filters))"

section \<open>Vocabulary of the properties\<close>

text \<open>The names of a filter list, in order.\<close>

definition names :: "SemanticFilter list \<Rightarrow> string list" where
  "names fs = map name fs"

text \<open>The distinct elements of a list in the order of their first occurrence.\<close>

fun first_occurrences :: "'a list \<Rightarrow> 'a list" where
  "first_occurrences [] = []"
| "first_occurrences (x # xs) = x # first_occurrences (filter (\<lambda>y. y \<noteq> x) xs)"

text \<open>The last filter of a list that carries a given name, if there is one.\<close>

definition last_named :: "SemanticFilter list \<Rightarrow> string \<Rightarrow> SemanticFilter option" where
  "last_named fs n = find (\<lambda>f. name f = n) (rev fs)"

text \<open>
  The entry that the merge of \<open>baseline\<close> and \<open>runtime\<close> is to hold under a name: the
  last runtime filter of that name if there is one, otherwise the last baseline filter of
  that name.
\<close>

definition merged_entry ::
  "SemanticFilter list \<Rightarrow> SemanticFilter list \<Rightarrow> string \<Rightarrow> SemanticFilter option" where
  "merged_entry baseline runtime n =
     (case last_named runtime n of Some g \<Rightarrow> Some g | None \<Rightarrow> last_named baseline n)"

text \<open>The invariant of the dictionary \<open>merged\<close>: every filter is stored under its own name.\<close>

definition keyed_by_name :: "(string \<times> SemanticFilter) list \<Rightarrow> bool" where
  "keyed_by_name d = list_all (\<lambda>(k, f). k = name f) d"

text \<open>
  A filter on the dimension \<open>status\<close> with an explicit name and a comparison value, built
  by \<open>runtime_filter_to_semantic\<close>; the concrete instances below are made of these.
\<close>

definition named_filter :: "string \<Rightarrow> PyVal \<Rightarrow> SemanticFilter" where
  "named_filter n v =
     runtime_filter_to_semantic ''status'' EQUALS v PyNone PyNone PyNone None STRING WHERE True (Some n)"

section \<open>Properties of the dictionary model\<close>

lemma first_occurrences_set: "set (first_occurrences xs) = set xs"
  by (induction xs rule: first_occurrences.induct) auto

lemma first_occurrences_distinct: "distinct (first_occurrences xs)"
  by (induction xs rule: first_occurrences.induct) (auto simp: first_occurrences_set)

lemma first_occurrences_id: "distinct xs \<Longrightarrow> first_occurrences xs = xs"
proof (induction xs)
  case Nil
  then show ?case by simp
next
  case (Cons x xs)
  then have "filter (\<lambda>y. y \<noteq> x) xs = xs"
    by (auto intro: filter_True)
  with Cons show ?case by simp
qed

lemma dict_setitem_keys_present:
  "k \<in> set (map fst d) \<Longrightarrow> map fst (dict_setitem d k v) = map fst d"
  by (induction d) force+

lemma dict_setitem_keys_new:
  "k \<notin> set (map fst d) \<Longrightarrow> map fst (dict_setitem d k v) = map fst d @ [k]"
  by (induction d) auto

lemma dict_setitem_keys:
  "map fst (dict_setitem d k v) = (if k \<in> set (map fst d) then map fst d else map fst d @ [k])"
  by (simp add: dict_setitem_keys_present dict_setitem_keys_new)

lemma dict_setitem_lookup: "map_of (dict_setitem d k v) = (map_of d)(k \<mapsto> v)"
  by (induction d) (auto simp: fun_eq_iff)

lemma dict_setitem_distinct:
  "distinct (map fst d) \<Longrightarrow> distinct (map fst (dict_setitem d k v))"
  by (simp add: dict_setitem_keys)

lemma dict_setitem_keyed:
  "keyed_by_name d \<Longrightarrow> keyed_by_name (dict_setitem d (name f) f)"
  by (induction d) (auto simp: keyed_by_name_def)

lemma filter_conj_commute:
  "filter (\<lambda>y. y \<noteq> n \<and> y \<notin> S) xs = filter (\<lambda>y. y \<notin> S \<and> y \<noteq> n) xs"
  by (induction xs) auto

lemma merge_assign_keys:
  "map fst (merge_assign d fs) =
     map fst d @ first_occurrences (filter (\<lambda>n. n \<notin> set (map fst d)) (names fs))"
proof (induction fs arbitrary: d)
  case Nil
  then show ?case by (simp add: names_def)
next
  case (Cons f fs)
  show ?case
  proof (cases "name f \<in> set (map fst d)")
    case True
    then show ?thesis
      using Cons.IH [of "dict_setitem d (name f) f"]
      by (simp add: dict_setitem_keys names_def)
  next
    case False
    then show ?thesis
      using Cons.IH [of "dict_setitem d (name f) f"]
      by (simp add: dict_setitem_keys names_def filter_conj_commute)
  qed
qed

lemma merge_assign_distinct:
  "distinct (map fst d) \<Longrightarrow> distinct (map fst (merge_assign d fs))"
  by (induction fs arbitrary: d) (simp_all add: dict_setitem_distinct)

lemma merge_assign_keyed:
  "keyed_by_name d \<Longrightarrow> keyed_by_name (merge_assign d fs)"
  by (induction fs arbitrary: d) (simp_all add: dict_setitem_keyed)

lemma last_named_Nil: "last_named [] n = None"
  by (simp add: last_named_def)

lemma find_snoc:
  "find P (xs @ [x]) = (case find P xs of Some y \<Rightarrow> Some y | None \<Rightarrow> if P x then Some x else None)"
  by (induction xs) auto

lemma last_named_Cons:
  "last_named (f # fs) n =
     (case last_named fs n of Some g \<Rightarrow> Some g | None \<Rightarrow> if name f = n then Some f else None)"
  by (simp add: last_named_def find_snoc)

lemma last_named_None: "last_named fs n = None \<longleftrightarrow> n \<notin> set (names fs)"
  by (auto simp: last_named_def names_def find_None_iff)

lemma last_named_Some: "last_named fs n = Some f \<Longrightarrow> f \<in> set fs \<and> name f = n"
  by (induction fs) (auto simp: last_named_Nil last_named_Cons split: option.splits if_splits)

lemma merge_assign_lookup:
  "map_of (merge_assign d fs) n =
     (case last_named fs n of Some g \<Rightarrow> Some g | None \<Rightarrow> map_of d n)"
proof (induction fs arbitrary: d)
  case Nil
  then show ?case by (simp add: last_named_Nil)
next
  case (Cons f fs)
  show ?case
    using Cons.IH [of "dict_setitem d (name f) f"]
    by (simp add: dict_setitem_lookup last_named_Cons split: option.splits)
qed

lemma dict_values_lookup:
  "distinct (map fst d) \<Longrightarrow> map Some (dict_values d) = map (map_of d) (map fst d)"
proof (induction d)
  case Nil
  then show ?case by (simp add: dict_values_def)
next
  case (Cons p d)
  obtain k v where p: "p = (k, v)" by (cases p)
  from Cons.prems p have "k \<notin> fst ` set d" by simp
  then have "map (map_of ((k, v) # d)) (map fst d) = map (map_of d) (map fst d)"
    by (intro map_cong) auto
  with Cons p show ?case by (simp add: dict_values_def)
qed

lemma dict_values_names:
  "keyed_by_name d \<Longrightarrow> names (dict_values d) = map fst d"
  by (induction d) (auto simp: keyed_by_name_def dict_values_def names_def)

section \<open>Properties of the merged dictionary\<close>

lemma merge_filters_nonempty:
  "baseline \<noteq> [] \<Longrightarrow> runtime \<noteq> [] \<Longrightarrow>
   merge_filters (Some baseline) runtime False =
     dict_values (merge_assign (merge_assign [] baseline) runtime)"
  by (cases baseline) (simp_all add: merge_filters_def)

lemma merged_dict_keyed: "keyed_by_name (merge_assign (merge_assign [] baseline) runtime)"
  by (intro merge_assign_keyed) (simp add: keyed_by_name_def)

lemma merged_dict_distinct: "distinct (map fst (merge_assign (merge_assign [] baseline) runtime))"
  by (intro merge_assign_distinct) simp

lemma merged_dict_keys:
  "map fst (merge_assign (merge_assign [] baseline) runtime) =
     first_occurrences (names baseline) @
     first_occurrences (filter (\<lambda>n. n \<notin> set (names baseline)) (names runtime))"
proof -
  have "map fst (merge_assign [] baseline) = first_occurrences (names baseline)"
    using merge_assign_keys [of "[]" baseline] by simp
  then show ?thesis
    using merge_assign_keys [of "merge_assign [] baseline" runtime]
    by (simp add: first_occurrences_set)
qed

lemma merged_dict_lookup:
  "map_of (merge_assign (merge_assign [] baseline) runtime) n = merged_entry baseline runtime n"
  by (simp add: merge_assign_lookup merged_entry_def split: option.splits)

lemma merged_names:
  assumes "baseline \<noteq> []" and "runtime \<noteq> []"
  shows "names (merge_filters (Some baseline) runtime False) =
           first_occurrences (names baseline) @
           first_occurrences (filter (\<lambda>n. n \<notin> set (names baseline)) (names runtime))"
  using assms
  by (simp add: merge_filters_nonempty dict_values_names merged_dict_keyed merged_dict_keys)

lemma merged_entries:
  assumes "baseline \<noteq> []" and "runtime \<noteq> []"
  shows "map Some (merge_filters (Some baseline) runtime False) =
           map (merged_entry baseline runtime) (names (merge_filters (Some baseline) runtime False))"
proof -
  let ?d = "merge_assign (merge_assign [] baseline) runtime"
  have "map Some (dict_values ?d) = map (map_of ?d) (map fst ?d)"
    by (rule dict_values_lookup) (rule merged_dict_distinct)
  also have "\<dots> = map (merged_entry baseline runtime) (names (dict_values ?d))"
    by (simp add: dict_values_names merged_dict_keyed merged_dict_lookup)
  finally show ?thesis
    using assms by (simp add: merge_filters_nonempty)
qed

lemma merged_distinct:
  assumes "baseline \<noteq> []" and "runtime \<noteq> []"
  shows "distinct (names (merge_filters (Some baseline) runtime False))"
  using assms
  by (simp add: merge_filters_nonempty dict_values_names merged_dict_keyed merged_dict_distinct)

lemma merged_names_set:
  assumes "baseline \<noteq> []" and "runtime \<noteq> []"
  shows "set (names (merge_filters (Some baseline) runtime False)) =
           set (names baseline) \<union> set (names runtime)"
  using assms by (auto simp: merged_names first_occurrences_set)

lemma map_eq_pointwise: "map f xs = map g (map h xs) \<Longrightarrow> x \<in> set xs \<Longrightarrow> f x = g (h x)"
  by (induction xs) auto

lemma merged_member:
  assumes "baseline \<noteq> []" and "runtime \<noteq> []"
    and "f \<in> set (merge_filters (Some baseline) runtime False)"
  shows "merged_entry baseline runtime (name f) = Some f"
proof -
  let ?out = "merge_filters (Some baseline) runtime False"
  have "map Some ?out = map (merged_entry baseline runtime) (map name ?out)"
    using merged_entries [OF assms(1,2)] by (simp add: names_def)
  then have "Some f = merged_entry baseline runtime (name f)"
    using assms(3) by (rule map_eq_pointwise)
  then show ?thesis by simp
qed

lemma merged_entry_cases:
  "merged_entry baseline runtime n =
     (if n \<in> set (names runtime) then last_named runtime n else last_named baseline n)"
  using last_named_None [of runtime n]
  by (auto simp: merged_entry_def split: option.splits)


lemma distinct_find_last:
  "distinct (map h xs) \<Longrightarrow> x \<in> set xs \<Longrightarrow> find (\<lambda>y. h y = h x) (rev xs) = Some x"
proof (induction xs)
  case Nil
  then show ?case by simp
next
  case (Cons a xs)
  show ?case
  proof (cases "x \<in> set xs")
    case True
    with Cons show ?thesis by (simp add: find_snoc)
  next
    case False
    with Cons.prems have "x = a" and "h a \<notin> h ` set xs"
      by auto
    then have "find (\<lambda>y. h y = h a) (rev xs) = None"
      by (auto simp: find_None_iff image_iff)
    with \<open>x = a\<close> show ?thesis by (simp add: find_snoc)
  qed
qed


lemma last_named_distinct:
  "distinct (names xs) \<Longrightarrow> x \<in> set xs \<Longrightarrow> last_named xs (name x) = Some x"
  unfolding names_def last_named_def by (rule distinct_find_last)

lemma merged_entry_self: "merged_entry l l n = last_named l n"
  by (simp add: merged_entry_def split: option.splits)

lemma merge_self_names:
  assumes "l \<noteq> []"
  shows "names (merge_filters (Some l) l False) = first_occurrences (names l)"
proof -
  have "filter (\<lambda>n. n \<notin> set (names l)) (names l) = []"
    by (simp add: filter_empty_conv)
  then show ?thesis
    using merged_names [OF assms assms] by simp
qed

lemma merge_self_lookup:
  assumes "l \<noteq> []"
  shows "last_named (merge_filters (Some l) l False) n = last_named l n"
proof (cases "n \<in> set (names (merge_filters (Some l) l False))")
  case True
  then obtain f where f: "f \<in> set (merge_filters (Some l) l False)" and n: "n = name f"
    by (auto simp: names_def)
  have "last_named (merge_filters (Some l) l False) (name f) = Some f"
    using merged_distinct [OF assms assms] f by (rule last_named_distinct)
  moreover have "last_named l (name f) = Some f"
    using merged_member [OF assms assms f] by (simp add: merged_entry_self)
  ultimately show ?thesis by (simp add: n)
next
  case False
  then have "last_named (merge_filters (Some l) l False) n = None"
    by (simp add: last_named_None)
  moreover from False have "n \<notin> set (names l)"
    using merged_names_set [OF assms assms] by simp
  then have "last_named l n = None"
    by (simp add: last_named_None)
  ultimately show ?thesis by simp
qed

lemma last_named_map_distinct:
  assumes "distinct (names l)"
  shows "map (last_named l) (names l) = map Some l"
proof -
  have "map (last_named l) (map name l) = map (\<lambda>f. last_named l (name f)) l"
    by (simp add: comp_def)
  also have "\<dots> = map Some l"
    using assms by (intro map_cong refl) (rule last_named_distinct)
  finally show ?thesis by (simp add: names_def)
qed

lemma merge_self_distinct:
  assumes "l \<noteq> []" and "distinct (names l)"
  shows "merge_filters (Some l) l False = l"
proof -
  let ?out = "merge_filters (Some l) l False"
  have nm: "names ?out = names l"
    using assms by (simp add: merge_self_names first_occurrences_id)
  have "map Some ?out = map (merged_entry l l) (names ?out)"
    using assms(1) by (rule merged_entries [OF _ assms(1)])
  also have "\<dots> = map (last_named l) (names l)"
    by (simp add: nm merged_entry_self)
  also have "\<dots> = map Some l"
    using assms(2) by (rule last_named_map_distinct)
  finally show ?thesis
    by simp
qed



section \<open>Properties of the constructor loop\<close>

lemma dict_to_semantic_filters_loop_append:
  "dict_to_semantic_filters_loop items filters = filters @ map dict_entry_filter items"
  by (induction items arbitrary: filters) simp_all

lemma dict_to_semantic_filters_map:
  "dict_to_semantic_filters filter_dict = map dict_entry_filter filter_dict"
  by (simp add: dict_to_semantic_filters_def dict_to_semantic_filters_loop_append)

lemma dict_to_semantic_filters_nth:
  "i < length filter_dict \<Longrightarrow>
   dict_to_semantic_filters filter_dict ! i = dict_entry_filter (filter_dict ! i)"
  by (simp add: dict_to_semantic_filters_map)

lemma dict_entry_filter_query: "query (dict_entry_filter (d, v)) = d"
  by (simp add: dict_entry_filter_def runtime_filter_to_semantic_defaults_def
      runtime_filter_to_semantic_def)

lemma dict_entry_filter_list:
  "isinstance_list v \<Longrightarrow>
   dict_entry_filter (d, v) =
     \<lparr> name = ''filter_'' @ d @ ''_'' @ operator_value IN, query = d, operator = IN,
       val = PyNone, vals = v, min_value = PyNone, max_value = PyNone, table = None,
       value_type = STRING, filter_type = WHERE, is_active = True \<rparr>"
  by (simp add: dict_entry_filter_def runtime_filter_to_semantic_defaults_def
      runtime_filter_to_semantic_def)

lemma dict_entry_filter_scalar:
  "\<not> isinstance_list v \<Longrightarrow>
   dict_entry_filter (d, v) =
     \<lparr> name = ''filter_'' @ d @ ''_'' @ operator_value EQUALS, query = d, operator = EQUALS,
       val = v, vals = PyNone, min_value = PyNone, max_value = PyNone, table = None,
       value_type = STRING, filter_type = WHERE, is_active = True \<rparr>"
  by (simp add: dict_entry_filter_def runtime_filter_to_semantic_defaults_def
      runtime_filter_to_semantic_def)

section \<open>The filter merger: claims\<close>

text \<open>
  Claim C1. For a non-empty baseline and a non-empty runtime list, the names of
  \<open>merge_filters (Some baseline) runtime False\<close> are the names of the baseline in the
  order of their first occurrence, followed by the names that occur only in runtime, in
  runtime's order of first occurrence. The entry at each name is the one \<open>merged_entry\<close>
  gives: runtime's filter of that name where runtime has one, so a name present in both
  lists keeps its baseline position and carries runtime's content; otherwise the baseline's.
  Where the names of the baseline are distinct, \<open>first_occurrences\<close> leaves them as they
  are (\<open>first_occurrences_id\<close>).
\<close>

theorem merge_filters_order:
  assumes "baseline \<noteq> []" and "runtime \<noteq> []"
  shows "names (merge_filters (Some baseline) runtime False) =
           first_occurrences (names baseline) @
           first_occurrences (filter (\<lambda>n. n \<notin> set (names baseline)) (names runtime))
       \<and> map Some (merge_filters (Some baseline) runtime False) =
           map (merged_entry baseline runtime)
             (names (merge_filters (Some baseline) runtime False))"
  using merged_names [OF assms] merged_entries [OF assms] by (rule conjI)

text \<open>The theorem at a concrete input.\<close>

theorem merge_filters_order_witness:
  "[named_filter ''a'' (PyInt 1), named_filter ''b'' (PyInt 2), named_filter ''c'' (PyInt 3)] \<noteq> []
   \<and> [named_filter ''d'' (PyInt 4), named_filter ''b'' (PyInt 5)] \<noteq> []
   \<and> names (merge_filters
        (Some [named_filter ''a'' (PyInt 1), named_filter ''b'' (PyInt 2), named_filter ''c'' (PyInt 3)])
        [named_filter ''d'' (PyInt 4), named_filter ''b'' (PyInt 5)] False)
      = [''a'', ''b'', ''c'', ''d'']
   \<and> map Some (merge_filters
        (Some [named_filter ''a'' (PyInt 1), named_filter ''b'' (PyInt 2), named_filter ''c'' (PyInt 3)])
        [named_filter ''d'' (PyInt 4), named_filter ''b'' (PyInt 5)] False)
      = [Some (named_filter ''a'' (PyInt 1)), Some (named_filter ''b'' (PyInt 5)),
         Some (named_filter ''c'' (PyInt 3)), Some (named_filter ''d'' (PyInt 4))]"
  using merge_filters_order
    [of "[named_filter ''a'' (PyInt 1), named_filter ''b'' (PyInt 2), named_filter ''c'' (PyInt 3)]"
        "[named_filter ''d'' (PyInt 4), named_filter ''b'' (PyInt 5)]"]
  by (simp add: merge_filters_def dict_values_def names_def merged_entry_def last_named_def
      named_filter_def runtime_filter_to_semantic_def)




text \<open>
  Claim C3. With \<open>replace\<close> true the result is the runtime list, whatever the baseline
  argument is: absent (\<open>None\<close>), empty or non-empty.
\<close>

theorem merge_filters_replace:
  "merge_filters baseline runtime True = runtime"
  by (simp add: merge_filters_def)

text \<open>
  Claim C4. \<open>merge_filters\<close> has no raising branch, so its result is a list for every
  argument. An absent and an empty baseline give the runtime list, and an empty runtime
  list gives the baseline.
\<close>

theorem merge_filters_noop:
  "merge_filters None runtime False = runtime \<and>
   merge_filters (Some []) runtime False = runtime \<and>
   merge_filters (Some baseline) [] False = baseline"
  by (cases baseline) (simp_all add: merge_filters_def)

text \<open>
  Claim C7. Merging a list with itself, \<open>replace\<close> false, gives a list with the same set
  of names in which every name has the content it has in the original, the content of a
  name in a list being the last filter of that name (\<open>last_named\<close>). Where the names of
  the list are distinct the result is the list itself.
\<close>

theorem merge_filters_idempotent:
  "set (names (merge_filters (Some l) l False)) = set (names l)
   \<and> (\<forall>n. last_named (merge_filters (Some l) l False) n = last_named l n)
   \<and> (distinct (names l) \<longrightarrow> merge_filters (Some l) l False = l)"
proof (cases "l = []")
  case True
  then show ?thesis by (simp add: merge_filters_def)
next
  case False
  have "set (names (merge_filters (Some l) l False)) = set (names l)"
    using False by (simp add: merge_self_names first_occurrences_set)
  moreover have "\<forall>n. last_named (merge_filters (Some l) l False) n = last_named l n"
    using False by (simp add: merge_self_lookup)
  moreover have "distinct (names l) \<longrightarrow> merge_filters (Some l) l False = l"
    using False by (simp add: merge_self_distinct)
  ultimately show ?thesis by simp
qed

text \<open>The theorem at a concrete input.\<close>

theorem merge_filters_idempotent_witness:
  "distinct (names [named_filter ''a'' (PyInt 1), named_filter ''b'' (PyInt 2)])
   \<and> merge_filters (Some [named_filter ''a'' (PyInt 1), named_filter ''b'' (PyInt 2)])
        [named_filter ''a'' (PyInt 1), named_filter ''b'' (PyInt 2)] False
      = [named_filter ''a'' (PyInt 1), named_filter ''b'' (PyInt 2)]"
proof -
  have d: "distinct (names [named_filter ''a'' (PyInt 1), named_filter ''b'' (PyInt 2)])"
    by (simp add: names_def named_filter_def runtime_filter_to_semantic_def)
  then show ?thesis
    using merge_filters_idempotent
      [of "[named_filter ''a'' (PyInt 1), named_filter ''b'' (PyInt 2)]"]
    by simp
qed

text \<open>
  Claim C10. For a non-empty baseline and a non-empty runtime list, \<open>replace\<close> false,
  no two filters of the result share a name, whatever names the two lists repeat; every
  name of the baseline and every name of runtime is a name of the result, and no other; and
  each filter of the result is the last runtime filter of its name if runtime has that name,
  and the last baseline filter of its name otherwise. So the last of the baseline filters
  sharing a name survives unless runtime has the name, and then the last runtime filter of
  the name stands in its place. The branches that return an argument as it is keep its
  repeated names: \<open>replace\<close> true, an absent or empty baseline, an empty runtime list.
\<close>

theorem merge_filters_one_per_name:
  assumes "baseline \<noteq> []" and "runtime \<noteq> []"
  shows "distinct (names (merge_filters (Some baseline) runtime False))
   \<and> set (names (merge_filters (Some baseline) runtime False)) =
       set (names baseline) \<union> set (names runtime)
   \<and> (\<forall>f \<in> set (merge_filters (Some baseline) runtime False).
         Some f = (if name f \<in> set (names runtime)
                   then last_named runtime (name f) else last_named baseline (name f)))
   \<and> \<not> distinct (names (merge_filters b [g, g] True))
   \<and> \<not> distinct (names (merge_filters None [g, g] False))
   \<and> \<not> distinct (names (merge_filters (Some []) [g, g] False))
   \<and> \<not> distinct (names (merge_filters (Some [g, g]) [] False))"
proof -
  have "distinct (names (merge_filters (Some baseline) runtime False))"
    using assms by (rule merged_distinct)
  moreover have "set (names (merge_filters (Some baseline) runtime False)) =
      set (names baseline) \<union> set (names runtime)"
    using assms by (rule merged_names_set)
  moreover have "\<forall>f \<in> set (merge_filters (Some baseline) runtime False).
         Some f = (if name f \<in> set (names runtime)
                   then last_named runtime (name f) else last_named baseline (name f))"
    using merged_member [OF assms] by (simp add: merged_entry_cases)
  moreover have "\<not> distinct (names (merge_filters b [g, g] True))"
    by (simp add: merge_filters_def names_def)
  moreover have "\<not> distinct (names (merge_filters None [g, g] False))"
    by (simp add: merge_filters_def names_def)
  moreover have "\<not> distinct (names (merge_filters (Some []) [g, g] False))"
    by (simp add: merge_filters_def names_def)
  moreover have "\<not> distinct (names (merge_filters (Some [g, g]) [] False))"
    by (simp add: merge_filters_def names_def)
  ultimately show ?thesis
    by (intro conjI)
qed

text \<open>The theorem at a concrete input.\<close>

theorem merge_filters_one_per_name_witness:
  "[named_filter ''a'' (PyInt 1), named_filter ''a'' (PyInt 2), named_filter ''b'' (PyInt 3),
    named_filter ''b'' (PyInt 4)] \<noteq> []
   \<and> [named_filter ''b'' (PyInt 5), named_filter ''b'' (PyInt 6)] \<noteq> []
   \<and> merge_filters
        (Some [named_filter ''a'' (PyInt 1), named_filter ''a'' (PyInt 2),
               named_filter ''b'' (PyInt 3), named_filter ''b'' (PyInt 4)])
        [named_filter ''b'' (PyInt 5), named_filter ''b'' (PyInt 6)] False
      = [named_filter ''a'' (PyInt 2), named_filter ''b'' (PyInt 6)]
   \<and> distinct (names (merge_filters
        (Some [named_filter ''a'' (PyInt 1), named_filter ''a'' (PyInt 2),
               named_filter ''b'' (PyInt 3), named_filter ''b'' (PyInt 4)])
        [named_filter ''b'' (PyInt 5), named_filter ''b'' (PyInt 6)] False))"
  using merge_filters_one_per_name
    [of "[named_filter ''a'' (PyInt 1), named_filter ''a'' (PyInt 2),
          named_filter ''b'' (PyInt 3), named_filter ''b'' (PyInt 4)]"
        "[named_filter ''b'' (PyInt 5), named_filter ''b'' (PyInt 6)]"]
  by (simp add: merge_filters_def dict_values_def names_def last_named_def
      named_filter_def runtime_filter_to_semantic_def)

section \<open>The filter constructor: claims\<close>

text \<open>
  Claim C5, as stated, does not hold for a value that is a sequence and not a list: the
  test of the source is \<open>isinstance(value, list)\<close>, as its docstring says: "If a value
  is a list, the IN operator is used. Otherwise, the EQUALS operator is used." The tuple
  \<open>("US", "EU")\<close> is a sequence and not a scalar, and the filter emitted for
  \<open>{"region": ("US", "EU")}\<close> has the operator \<open>EQUALS\<close>, the tuple as its \<open>value\<close>
  and no \<open>values\<close>.
\<close>

theorem dict_to_semantic_filters_tuple_counterexample:
  "dict_to_semantic_filters [(''region'', PyTuple [PyStr ''US'', PyStr ''EU''])]
     = [\<lparr> name = ''filter_region_'' @ operator_value EQUALS, query = ''region'',
          operator = EQUALS, val = PyTuple [PyStr ''US'', PyStr ''EU''], vals = PyNone,
          min_value = PyNone, max_value = PyNone, table = None,
          value_type = STRING, filter_type = WHERE, is_active = True \<rparr>]
   \<and> operator (dict_to_semantic_filters [(''region'', PyTuple [PyStr ''US'', PyStr ''EU''])] ! 0) \<noteq> IN
   \<and> vals (dict_to_semantic_filters [(''region'', PyTuple [PyStr ''US'', PyStr ''EU''])] ! 0)
       \<noteq> PyTuple [PyStr ''US'', PyStr ''EU'']"
  by (simp add: dict_to_semantic_filters_map dict_entry_filter_def
      runtime_filter_to_semantic_defaults_def runtime_filter_to_semantic_def)

text \<open>
  Claim C5, amended. \<open>dict_to_semantic_filters\<close> emits one filter per item, at the
  item's own position. For an item whose value is a list it is the filter on the item's
  dimension with the operator \<open>IN\<close>, \<open>values\<close> that list and no \<open>value\<close>; for an item
  with any other value (a scalar, a string, and also a tuple or a dictionary) it is the
  filter on the item's dimension with the operator \<open>EQUALS\<close>, \<open>value\<close> that value and no
  \<open>values\<close>. In both cases the name is derived from the dimension and the operator and
  every other field has its default. The dictionary \<open>{"status": "active", "region":
  ["US", "EU", "APAC"]}\<close> gives exactly the two filters status \<open>EQUALS\<close> \<open>"active"\<close> and
  region \<open>IN\<close> \<open>["US", "EU", "APAC"]\<close>, in that order.
\<close>

theorem dict_to_semantic_filters_entries:
  "length (dict_to_semantic_filters filter_dict) = length filter_dict
   \<and> (\<forall>i < length filter_dict.
        dict_to_semantic_filters filter_dict ! i =
          (case snd (filter_dict ! i) of
             PyList xs \<Rightarrow>
               \<lparr> name = ''filter_'' @ fst (filter_dict ! i) @ ''_'' @ operator_value IN,
                 query = fst (filter_dict ! i), operator = IN, val = PyNone, vals = PyList xs,
                 min_value = PyNone, max_value = PyNone, table = None,
                 value_type = STRING, filter_type = WHERE, is_active = True \<rparr>
           | v \<Rightarrow>
               \<lparr> name = ''filter_'' @ fst (filter_dict ! i) @ ''_'' @ operator_value EQUALS,
                 query = fst (filter_dict ! i), operator = EQUALS, val = v, vals = PyNone,
                 min_value = PyNone, max_value = PyNone, table = None,
                 value_type = STRING, filter_type = WHERE, is_active = True \<rparr>))
   \<and> dict_to_semantic_filters
        [(''status'', PyStr ''active''),
         (''region'', PyList [PyStr ''US'', PyStr ''EU'', PyStr ''APAC''])]
      = [\<lparr> name = ''filter_status_'' @ operator_value EQUALS, query = ''status'',
            operator = EQUALS, val = PyStr ''active'', vals = PyNone,
            min_value = PyNone, max_value = PyNone, table = None,
            value_type = STRING, filter_type = WHERE, is_active = True \<rparr>,
         \<lparr> name = ''filter_region_'' @ operator_value IN, query = ''region'',
            operator = IN, val = PyNone,
            vals = PyList [PyStr ''US'', PyStr ''EU'', PyStr ''APAC''],
            min_value = PyNone, max_value = PyNone, table = None,
            value_type = STRING, filter_type = WHERE, is_active = True \<rparr>]"
proof -
  have "length (dict_to_semantic_filters filter_dict) = length filter_dict"
    by (simp add: dict_to_semantic_filters_map)
  moreover have "(\<forall>i < length filter_dict.
        dict_to_semantic_filters filter_dict ! i =
          (case snd (filter_dict ! i) of
             PyList xs \<Rightarrow>
               \<lparr> name = ''filter_'' @ fst (filter_dict ! i) @ ''_'' @ operator_value IN,
                 query = fst (filter_dict ! i), operator = IN, val = PyNone, vals = PyList xs,
                 min_value = PyNone, max_value = PyNone, table = None,
                 value_type = STRING, filter_type = WHERE, is_active = True \<rparr>
           | v \<Rightarrow>
               \<lparr> name = ''filter_'' @ fst (filter_dict ! i) @ ''_'' @ operator_value EQUALS,
                 query = fst (filter_dict ! i), operator = EQUALS, val = v, vals = PyNone,
                 min_value = PyNone, max_value = PyNone, table = None,
                 value_type = STRING, filter_type = WHERE, is_active = True \<rparr>))"
    by (simp add: dict_to_semantic_filters_nth dict_entry_filter_def case_prod_beta
        runtime_filter_to_semantic_defaults_def runtime_filter_to_semantic_def
        split: PyVal.split)
  moreover have "dict_to_semantic_filters
        [(''status'', PyStr ''active''),
         (''region'', PyList [PyStr ''US'', PyStr ''EU'', PyStr ''APAC''])]
      = [\<lparr> name = ''filter_status_'' @ operator_value EQUALS, query = ''status'',
            operator = EQUALS, val = PyStr ''active'', vals = PyNone,
            min_value = PyNone, max_value = PyNone, table = None,
            value_type = STRING, filter_type = WHERE, is_active = True \<rparr>,
         \<lparr> name = ''filter_region_'' @ operator_value IN, query = ''region'',
            operator = IN, val = PyNone,
            vals = PyList [PyStr ''US'', PyStr ''EU'', PyStr ''APAC''],
            min_value = PyNone, max_value = PyNone, table = None,
            value_type = STRING, filter_type = WHERE, is_active = True \<rparr>]"
    by (simp add: dict_to_semantic_filters_map dict_entry_filter_def
        runtime_filter_to_semantic_defaults_def runtime_filter_to_semantic_def)
  ultimately show ?thesis
    by (intro conjI)
qed

text \<open>The theorem at a concrete input.\<close>

theorem dict_to_semantic_filters_entries_witness:
  "(1::nat) < length [(''status'', PyStr ''active''),
         (''region'', PyList [PyStr ''US'', PyStr ''EU'', PyStr ''APAC''])]
   \<and> dict_to_semantic_filters [(''status'', PyStr ''active''),
         (''region'', PyList [PyStr ''US'', PyStr ''EU'', PyStr ''APAC''])] ! 1
     = \<lparr> name = ''filter_region_'' @ operator_value IN, query = ''region'',
         operator = IN, val = PyNone,
         vals = PyList [PyStr ''US'', PyStr ''EU'', PyStr ''APAC''],
         min_value = PyNone, max_value = PyNone, table = None,
         value_type = STRING, filter_type = WHERE, is_active = True \<rparr>"
proof -
  have "(\<forall>i < length [(''status'', PyStr ''active''),
         (''region'', PyList [PyStr ''US'', PyStr ''EU'', PyStr ''APAC''])].
        dict_to_semantic_filters [(''status'', PyStr ''active''),
         (''region'', PyList [PyStr ''US'', PyStr ''EU'', PyStr ''APAC''])] ! i =
          (case snd ([(''status'', PyStr ''active''),
         (''region'', PyList [PyStr ''US'', PyStr ''EU'', PyStr ''APAC''])] ! i) of
             PyList xs \<Rightarrow>
               \<lparr> name = ''filter_'' @ fst ([(''status'', PyStr ''active''),
         (''region'', PyList [PyStr ''US'', PyStr ''EU'', PyStr ''APAC''])] ! i) @ ''_'' @ operator_value IN,
                 query = fst ([(''status'', PyStr ''active''),
         (''region'', PyList [PyStr ''US'', PyStr ''EU'', PyStr ''APAC''])] ! i), operator = IN, val = PyNone, vals = PyList xs,
                 min_value = PyNone, max_value = PyNone, table = None,
                 value_type = STRING, filter_type = WHERE, is_active = True \<rparr>
           | v \<Rightarrow>
               \<lparr> name = ''filter_'' @ fst ([(''status'', PyStr ''active''),
         (''region'', PyList [PyStr ''US'', PyStr ''EU'', PyStr ''APAC''])] ! i) @ ''_'' @ operator_value EQUALS,
                 query = fst ([(''status'', PyStr ''active''),
         (''region'', PyList [PyStr ''US'', PyStr ''EU'', PyStr ''APAC''])] ! i), operator = EQUALS, val = v, vals = PyNone,
                 min_value = PyNone, max_value = PyNone, table = None,
                 value_type = STRING, filter_type = WHERE, is_active = True \<rparr>))"
    using dict_to_semantic_filters_entries
      [of "[(''status'', PyStr ''active''),
         (''region'', PyList [PyStr ''US'', PyStr ''EU'', PyStr ''APAC''])]"]
    by (rule conjunct1 [OF conjunct2])
  from this [rule_format, of 1] show ?thesis by simp
qed

text \<open>
  Claim C6. \<open>runtime_filter_to_semantic\<close> returns a filter for every combination of
  arguments, absent value fields included, whose fields are the arguments, the dimension
  under \<open>query\<close>. A given name is kept; an omitted name becomes \<open>filter_\<close>, the
  dimension, \<open>_\<close> and the operator's value. The dimension \<open>price\<close> with the operator
  \<open>BETWEEN\<close>, \<open>min_value = 10\<close>, \<open>max_value = 100\<close> and no name is named
  \<open>filter_price_between\<close>.
\<close>

theorem runtime_filter_to_semantic_copies:
  "query (runtime_filter_to_semantic d op v vs mn mx t vt ft a nm) = d
   \<and> operator (runtime_filter_to_semantic d op v vs mn mx t vt ft a nm) = op
   \<and> val (runtime_filter_to_semantic d op v vs mn mx t vt ft a nm) = v
   \<and> vals (runtime_filter_to_semantic d op v vs mn mx t vt ft a nm) = vs
   \<and> min_value (runtime_filter_to_semantic d op v vs mn mx t vt ft a nm) = mn
   \<and> max_value (runtime_filter_to_semantic d op v vs mn mx t vt ft a nm) = mx
   \<and> table (runtime_filter_to_semantic d op v vs mn mx t vt ft a nm) = t
   \<and> value_type (runtime_filter_to_semantic d op v vs mn mx t vt ft a nm) = vt
   \<and> filter_type (runtime_filter_to_semantic d op v vs mn mx t vt ft a nm) = ft
   \<and> is_active (runtime_filter_to_semantic d op v vs mn mx t vt ft a nm) = a
   \<and> name (runtime_filter_to_semantic d op v vs mn mx t vt ft a (Some n)) = n
   \<and> name (runtime_filter_to_semantic d op v vs mn mx t vt ft a None) =
       ''filter_'' @ d @ ''_'' @ operator_value op
   \<and> name (runtime_filter_to_semantic ''price'' BETWEEN PyNone PyNone (PyInt 10) (PyInt 100)
        None STRING WHERE True None) = ''filter_price_between''"
  by (simp add: runtime_filter_to_semantic_def)

text \<open>
  Claim C8. A string value is not a list: the filter emitted for an item whose value is a
  string has the operator \<open>EQUALS\<close>, not \<open>IN\<close>, the whole string as its \<open>value\<close>
  and no \<open>values\<close>.
\<close>

theorem dict_to_semantic_filters_string_scalar:
  assumes "i < length filter_dict" and "snd (filter_dict ! i) = PyStr s"
  shows "query (dict_to_semantic_filters filter_dict ! i) = fst (filter_dict ! i)
       \<and> operator (dict_to_semantic_filters filter_dict ! i) = EQUALS
       \<and> val (dict_to_semantic_filters filter_dict ! i) = PyStr s
       \<and> vals (dict_to_semantic_filters filter_dict ! i) = PyNone
       \<and> operator (dict_to_semantic_filters filter_dict ! i) \<noteq> IN"
  using assms
  by (simp add: dict_to_semantic_filters_map dict_entry_filter_def
      runtime_filter_to_semantic_defaults_def runtime_filter_to_semantic_def case_prod_beta)

text \<open>The theorem at a concrete input.\<close>

theorem dict_to_semantic_filters_string_scalar_witness:
  "(0::nat) < length [(''status'', PyStr ''active'')]
   \<and> snd ([(''status'', PyStr ''active'')] ! 0) = PyStr ''active''
   \<and> operator (dict_to_semantic_filters [(''status'', PyStr ''active'')] ! 0) = EQUALS
   \<and> val (dict_to_semantic_filters [(''status'', PyStr ''active'')] ! 0) = PyStr ''active''
   \<and> vals (dict_to_semantic_filters [(''status'', PyStr ''active'')] ! 0) = PyNone"
  using dict_to_semantic_filters_string_scalar
    [of 0 "[(''status'', PyStr ''active'')]" "''active''"]
  by simp

text \<open>
  Claim C9. For two distinct dimensions \<open>a\<close> and \<open>b\<close>, the filters built from the items
  \<open>[(a, v), (b, w)]\<close> are not the filters built from the items in the reverse order,
  for all values \<open>v\<close> and \<open>w\<close>, the claim's \<open>1\<close> and \<open>2\<close> among them.
\<close>

theorem dict_to_semantic_filters_order_sensitive:
  assumes "a \<noteq> b"
  shows "dict_to_semantic_filters [(a, v), (b, w)] \<noteq> dict_to_semantic_filters [(b, w), (a, v)]"
proof
  assume eq: "dict_to_semantic_filters [(a, v), (b, w)] = dict_to_semantic_filters [(b, w), (a, v)]"
  have l: "query (hd (dict_to_semantic_filters [(a, v), (b, w)])) = a"
    by (simp add: dict_to_semantic_filters_map dict_entry_filter_query)
  have r: "query (hd (dict_to_semantic_filters [(b, w), (a, v)])) = b"
    by (simp add: dict_to_semantic_filters_map dict_entry_filter_query)
  from eq have "query (hd (dict_to_semantic_filters [(a, v), (b, w)])) =
                query (hd (dict_to_semantic_filters [(b, w), (a, v)]))"
    by (rule arg_cong)
  then have "a = b"
    unfolding l r .
  with assms show False
    by (rule notE)
qed

text \<open>The theorem at a concrete input.\<close>

theorem dict_to_semantic_filters_order_sensitive_witness:
  "''a'' \<noteq> ''b''
   \<and> dict_to_semantic_filters [(''a'', PyInt 1), (''b'', PyInt 2)] \<noteq>
      dict_to_semantic_filters [(''b'', PyInt 2), (''a'', PyInt 1)]"
  using dict_to_semantic_filters_order_sensitive [of "''a''" "''b''" "PyInt 1" "PyInt 2"]
  by simp

end
